theory Spec2Isabelle
  imports Main "HOL-Library.Sublist"
begin

section \<open>Values, exceptions and the world the handler runs in\<close>

text \<open>
  \<^verbatim>\<open>CrearPelicula.py\<close> works on the values that \<^verbatim>\<open>json.loads\<close> produces and that the
  Lambda runtime hands over as the event: \<^verbatim>\<open>None\<close>, booleans, integers, strings, lists
  and dictionaries with string keys.  A dictionary is an association list in insertion
  order.  Floating-point numbers are left out of the value type.
\<close>

datatype json =
    JNull
  | JBool bool
  | JInt int
  | JStr string
  | JList "json list"
  | JObj "(string \<times> json) list"

type_synonym dict = "(string \<times> json) list"

text \<open>The exceptions that the source can meet: each is a value in the model.\<close>

datatype exn =
    KeyError string
  | TypeError
  | OSError

text \<open>
  What \<^verbatim>\<open>table.put_item(Item=pelicula)\<close> can do: return the store's response, raise an
  exception of the classes \<^verbatim>\<open>BotoCoreError\<close> or \<^verbatim>\<open>ClientError\<close> (carrying \<^verbatim>\<open>str(be)\<close>),
  or raise any other exception (carrying \<^verbatim>\<open>e.__class__.__name__\<close> and \<^verbatim>\<open>str(e)\<close>).
\<close>

datatype put_result =
    PutOk json
  | PutBotoError string
  | PutOtherError string string

text \<open>The value returned by the handler: \<^verbatim>\<open>{'statusCode': ..., 'body': ...}\<close>.\<close>

record response =
  statusCode :: int
  body :: string

text \<open>
  \<^verbatim>\<open>str(uuid.uuid4())\<close> is taken at its contract: a generator is a sequence of strings, none
  of them empty and no two of them equal.  \<open>uuid4_nth g n\<close> is the string of the \<open>n\<close>-th
  call.
\<close>

typedef uuid_gen = "{f :: nat \<Rightarrow> string. inj f \<and> (\<forall>n. f n \<noteq> [])}"
  morphisms uuid4_nth Abs_uuid_gen
proof
  show "(\<lambda>n. replicate (Suc n) (CHR ''0'')) \<in> {f :: nat \<Rightarrow> string. inj f \<and> (\<forall>n. f n \<noteq> [])}"
    by (auto simp: inj_def replicate_eq_replicate)
qed

text \<open>
  Everything outside the source file is a field of the world: the standard output (one
  element per \<^verbatim>\<open>print\<close>), the files by path, which paths can be opened for appending,
  the process environment, the clock behind \<^verbatim>\<open>datetime.utcnow().isoformat()\<close> and the
  number of times it was read, the generator behind \<^verbatim>\<open>str(uuid.uuid4())\<close> and the number
  of identifiers drawn, the \<^verbatim>\<open>json\<close> module (\<^verbatim>\<open>None\<close> from \<open>json_loads\<close> is
  \<^verbatim>\<open>JSONDecodeError\<close>), and the store behind \<^verbatim>\<open>put_item\<close>.
\<close>

record world =
  stdout :: "string list"
  files :: "string \<Rightarrow> string option"
  writable :: "string \<Rightarrow> bool"
  environ :: "string \<Rightarrow> string option"
  clock :: "nat \<Rightarrow> string"
  ticks :: nat
  uuid_src :: uuid_gen
  drawn :: nat
  json_loads :: "string \<Rightarrow> json option"
  json_dumps :: "json \<Rightarrow> string"
  put_item :: "string \<Rightarrow> json \<Rightarrow> put_result"

section \<open>Python primitives used by the source\<close>

definition LF :: char where "LF = CHR 0x0A"
definition SQ :: char where "SQ = CHR 0x27"

text \<open>\<^verbatim>\<open>d[k] = v\<close> on a dictionary: an existing key keeps its place.\<close>

fun dict_set :: "('k \<times> 'v) list \<Rightarrow> 'k \<Rightarrow> 'v \<Rightarrow> ('k \<times> 'v) list" where
  "dict_set [] k v = [(k, v)]"
| "dict_set ((k', v') # kvs) k v =
     (if k' = k then (k', v) # kvs else (k', v') # dict_set kvs k v)"

text \<open>\<^verbatim>\<open>{**d, **datos}\<close>: the entries of \<open>datos\<close> are stored one by one.\<close>

fun dict_merge :: "('k \<times> 'v) list \<Rightarrow> ('k \<times> 'v) list \<Rightarrow> ('k \<times> 'v) list" where
  "dict_merge d [] = d"
| "dict_merge d ((k, v) # kvs) = dict_merge (dict_set d k v) kvs"

text \<open>\<^verbatim>\<open>body[k]\<close>: a dictionary raises \<^verbatim>\<open>KeyError\<close> on a missing key; a list, a string,
  a number, a boolean or \<^verbatim>\<open>None\<close> raises \<^verbatim>\<open>TypeError\<close> on a string subscript.\<close>

fun subscript :: "json \<Rightarrow> string \<Rightarrow> exn + json" where
  "subscript (JObj kvs) k =
     (case map_of kvs k of Some v \<Rightarrow> Inr v | None \<Rightarrow> Inl (KeyError k))"
| "subscript v k = Inl TypeError"

text \<open>
  \<^verbatim>\<open>str(e)\<close> of a \<^verbatim>\<open>KeyError\<close> is the \<^verbatim>\<open>repr\<close> of the key.  The handler raises
  \<^verbatim>\<open>KeyError\<close> only for its two literal keys, which hold no quote, backslash or
  unprintable character, so the \<^verbatim>\<open>repr\<close> is the key between single quotes.
\<close>

definition str_KeyError :: "string \<Rightarrow> string" where
  "str_KeyError k = [SQ] @ k @ [SQ]"



text \<open>\<^verbatim>\<open>str(n)\<close> of a line number.\<close>

definition digit_char :: "nat \<Rightarrow> char" where
  "digit_char d = char_of (48 + d)"

fun str_nat :: "nat \<Rightarrow> string" where
  "str_nat n = (if n < 10 then [digit_char n] else str_nat (n div 10) @ [digit_char (n mod 10)])"

declare str_nat.simps [simp del]


text \<open>
  \<^verbatim>\<open>open(path, "a").write(text)\<close>: creates the file when it is missing and raises when the
  path cannot be opened or written.  A write that raises is taken to leave every file as it
  was, and a file that exists is taken to be readable text.
\<close>

definition file_append :: "string \<Rightarrow> string \<Rightarrow> world \<Rightarrow> exn + world" where
  "file_append path text w =
     (if writable w path
      then Inr (w\<lparr>files := (files w)(path \<mapsto>
              (case files w path of None \<Rightarrow> text | Some old \<Rightarrow> old @ text))\<rparr>)
      else Inl OSError)"

section \<open>The logger\<close>

definition LOG_PATH :: string where
  "LOG_PATH = ''/tmp/crear_pelicula.logl''"

definition iso_now :: "world \<Rightarrow> string \<times> world" where
  "iso_now w = (clock w (ticks w) @ ''Z'', w\<lparr>ticks := Suc (ticks w)\<rparr>)"

definition make_log_entry :: "string \<Rightarrow> dict \<Rightarrow> world \<Rightarrow> json \<times> world" where
  "make_log_entry tipo datos w =
     (case iso_now w of (ts, w') \<Rightarrow>
        (JObj [(''tipo'', JStr tipo),
               (''log_datos'', JObj (dict_merge [(''timestamp'', JStr ts)] datos))], w'))"

definition print_log :: "json \<Rightarrow> world \<Rightarrow> world" where
  "print_log entry w = w\<lparr>stdout := stdout w @ [json_dumps w entry]\<rparr>"

definition append_log_file :: "json \<Rightarrow> string \<Rightarrow> world \<Rightarrow> world" where
  "append_log_file entry path w =
     (case file_append path (json_dumps w entry @ [LF]) w of
        Inr w' \<Rightarrow> w'
      | Inl e \<Rightarrow>
          (case make_log_entry ''ERROR''
                  [(''action'', JStr ''append_log_file''),
                   (''message'', JStr ''failed to append log file''),
                   (''error'', JStr (''could not write to '' @ path))] w of
             (warn, w') \<Rightarrow> w'\<lparr>stdout := stdout w' @ [json_dumps w' warn]\<rparr>))"

section \<open>The log reader\<close>



definition filter_by_tipo :: "dict list \<Rightarrow> string \<Rightarrow> dict list" where
  "filter_by_tipo entries tipo = [e \<leftarrow> entries. map_of e ''tipo'' = Some (JStr tipo)]"

text \<open>
  Keys of the \<^verbatim>\<open>counts\<close> dictionary: a list or a dictionary is unhashable, and Python
  takes \<^verbatim>\<open>True\<close> and \<^verbatim>\<open>1\<close> (and \<^verbatim>\<open>False\<close> and \<^verbatim>\<open>0\<close>) for the same key.
\<close>

fun hashable :: "json \<Rightarrow> bool" where
  "hashable (JList xs) = False"
| "hashable (JObj kvs) = False"
| "hashable v = True"

fun key_eq :: "json \<Rightarrow> json \<Rightarrow> bool" where
  "key_eq (JBool b) (JInt i) = (i = (if b then 1 else 0))"
| "key_eq (JInt i) (JBool b) = (i = (if b then 1 else 0))"
| "key_eq a b = (a = b)"

fun counts_incr :: "(json \<times> int) list \<Rightarrow> json \<Rightarrow> (json \<times> int) list" where
  "counts_incr [] t = [(t, 1)]"
| "counts_incr ((k, c) # kcs) t =
     (if key_eq k t then (k, c + 1) # kcs else (k, c) # counts_incr kcs t)"

text \<open>\<^verbatim>\<open>e.get("tipo", "UNKNOWN")\<close>.\<close>

definition tipo_of :: "dict \<Rightarrow> json" where
  "tipo_of e = (case map_of e ''tipo'' of None \<Rightarrow> JStr ''UNKNOWN'' | Some v \<Rightarrow> v)"

fun count_loop :: "dict list \<Rightarrow> (json \<times> int) list \<Rightarrow> exn + (json \<times> int) list" where
  "count_loop [] counts = Inr counts"
| "count_loop (e # es) counts =
     (let t = tipo_of e
      in if hashable t then count_loop es (counts_incr counts t)
         else Inl TypeError)"

definition count_by_tipo :: "dict list \<Rightarrow> exn + (json \<times> int) list" where
  "count_by_tipo entries = count_loop entries []"

section \<open>The log reader, as the specification describes it\<close>











section \<open>The Lambda handler\<close>

text \<open>
  Lines 74 to 83: \<^verbatim>\<open>event.get\<close> raises \<^verbatim>\<open>AttributeError\<close> on anything that is not a
  dictionary, which the outer \<^verbatim>\<open>except Exception\<close> turns into the empty dictionary.
\<close>

definition normalize_body :: "json \<Rightarrow> world \<Rightarrow> json" where
  "normalize_body event w =
     (case event of
        JObj kvs \<Rightarrow>
          (case map_of kvs ''body'' of
             None \<Rightarrow> JObj []
           | Some (JStr s) \<Rightarrow> (case json_loads w s of Some v \<Rightarrow> v | None \<Rightarrow> JObj [])
           | Some b \<Rightarrow> b)
      | _ \<Rightarrow> JObj [])"

text \<open>Lines 86 and 87, the two subscripts inside the \<^verbatim>\<open>try\<close>.\<close>

definition required_fields :: "json \<Rightarrow> exn + (json \<times> json)" where
  "required_fields b =
     (case subscript b ''tenant_id'' of
        Inl e \<Rightarrow> Inl e
      | Inr tenant_id \<Rightarrow>
          (case subscript b ''pelicula_datos'' of
             Inl e \<Rightarrow> Inl e
           | Inr pelicula_datos \<Rightarrow> Inr (tenant_id, pelicula_datos)))"

text \<open>\<^verbatim>\<open>getattr(response, "get", lambda k, d=None: None)("ResponseMetadata", None)\<close>.\<close>

definition response_metadata :: "json \<Rightarrow> json" where
  "response_metadata r =
     (case r of
        JObj kvs \<Rightarrow> (case map_of kvs ''ResponseMetadata'' of None \<Rightarrow> JNull | Some m \<Rightarrow> m)
      | _ \<Rightarrow> JNull)"

text \<open>\<^verbatim>\<open>print_log(entry); append_log_file(entry)\<close>, as every branch of the handler does.\<close>

definition log_both :: "json \<Rightarrow> world \<Rightarrow> world" where
  "log_both entry w = append_log_file entry LOG_PATH (print_log entry w)"

definition lambda_handler :: "json \<Rightarrow> json \<Rightarrow> world \<Rightarrow> (exn + response) \<times> world" where
  "lambda_handler event context w =
     (let b = normalize_body event w in
      case required_fields b of
        Inl (KeyError k) \<Rightarrow>
          (case make_log_entry ''ERROR''
                  [(''action'', JStr ''parse_input''),
                   (''message'', JStr ''missing required field in body''),
                   (''missing_field'', JStr (str_KeyError k)),
                   (''body'', b)] w of
             (entry, w1) \<Rightarrow>
               (Inr \<lparr>statusCode = 400,
                     body = json_dumps w (JObj [(''error'',
                              JStr (''missing required field: '' @ str_KeyError k))])\<rparr>,
                log_both entry w1))
      | Inl e \<Rightarrow> (Inl e, w)
      | Inr (tenant_id, pelicula_datos) \<Rightarrow>
          (let nombre_tabla = (case environ w ''TABLE_NAME'' of None \<Rightarrow> [] | Some n \<Rightarrow> n) in
           if nombre_tabla = []
           then
             (case make_log_entry ''ERROR''
                     [(''action'', JStr ''env_check''),
                      (''message'', JStr ''TABLE_NAME not set in environment'')] w of
                (entry, w1) \<Rightarrow>
                  (Inr \<lparr>statusCode = 500,
                        body = json_dumps w (JObj [(''error'',
                                 JStr ''server configuration error: TABLE_NAME missing'')])\<rparr>,
                   log_both entry w1))
           else
             (let uuidv4 = uuid4_nth (uuid_src w) (drawn w);
                  w0 = w\<lparr>drawn := Suc (drawn w)\<rparr>;
                  pelicula = JObj [(''tenant_id'', tenant_id),
                                   (''uuid'', JStr uuidv4),
                                   (''pelicula_datos'', pelicula_datos)]
              in case put_item w nombre_tabla pelicula of
                   PutOk resp \<Rightarrow>
                     (case make_log_entry ''INFO''
                             [(''action'', JStr ''create_movie''),
                              (''status'', JStr ''success''),
                              (''pelicula'', pelicula),
                              (''dynamodb_response_metadata'', response_metadata resp)] w0 of
                        (entry, w1) \<Rightarrow>
                          (Inr \<lparr>statusCode = 200,
                                body = json_dumps w (JObj [(''pelicula'', pelicula),
                                                           (''dynamodb_response'', resp)])\<rparr>,
                           log_both entry w1))
                 | PutBotoError msg \<Rightarrow>
                     (case make_log_entry ''ERROR''
                             [(''action'', JStr ''create_movie''),
                              (''status'', JStr ''dynamodb_failed''),
                              (''error_message'', JStr msg),
                              (''pelicula'', pelicula)] w0 of
                        (entry, w1) \<Rightarrow>
                          (Inr \<lparr>statusCode = 502,
                                body = json_dumps w (JObj [(''error'', JStr ''dynamodb error''),
                                                           (''details'', JStr msg)])\<rparr>,
                           log_both entry w1))
                 | PutOtherError cls msg \<Rightarrow>
                     (case make_log_entry ''ERROR''
                             [(''action'', JStr ''create_movie''),
                              (''status'', JStr ''failed_unexpected''),
                              (''error_type'', JStr cls),
                              (''error_message'', JStr msg),
                              (''pelicula'', pelicula)] w0 of
                        (entry, w1) \<Rightarrow>
                          (Inr \<lparr>statusCode = 500,
                                body = json_dumps w (JObj [(''error'', JStr ''internal server error''),
                                                           (''details'', JStr msg)])\<rparr>,
                           log_both entry w1)))))"

text \<open>
  A field of the Record in what the handler returned, as a caller reads it:
  \<^verbatim>\<open>json.loads(res['body'])['pelicula'].get(k)\<close>; nothing when the handler raised or the body
  holds no such Record.
\<close>

definition record_field :: "world \<Rightarrow> string \<Rightarrow> exn + response \<Rightarrow> json option" where
  "record_field w k res =
     (case res of
        Inl e \<Rightarrow> None
      | Inr r \<Rightarrow>
          (case json_loads w (body r) of
             Some (JObj obj) \<Rightarrow>
               (case map_of obj ''pelicula'' of
                  Some (JObj pelicula) \<Rightarrow> map_of pelicula k
                | _ \<Rightarrow> None)
           | _ \<Rightarrow> None))"

section \<open>A reference \<^verbatim>\<open>json\<close> module\<close>

text \<open>
  The handler and the log reader take the \<^verbatim>\<open>json\<close> module from the world.  This section
  gives one such module, written after CPython's: \<open>ref_dumps\<close> is
  \<^verbatim>\<open>json.dumps(v, ensure_ascii=False)\<close> with the default separators, \<open>ref_loads\<close> is
  \<^verbatim>\<open>json.loads\<close> on texts without fractions, exponents, \<^verbatim>\<open>NaN\<close>, \<^verbatim>\<open>Infinity\<close> and without
  \<^verbatim>\<open>\u\<close> escapes above 255 (it rejects those texts, and \<open>None\<close> is \<^verbatim>\<open>JSONDecodeError\<close>).
  The recursion of the parser is bounded by the length of the text.
\<close>

definition DQ :: char where "DQ = CHR 0x22"
definition BSL :: char where "BSL = CHR 0x5C"

definition hex_char :: "nat \<Rightarrow> char" where
  "hex_char d = (if d < 10 then char_of (48 + d) else char_of (87 + d))"

definition escape_char :: "char \<Rightarrow> string" where
  "escape_char c =
     (if c = DQ then [BSL, DQ]
      else if c = BSL then [BSL, BSL]
      else if c = CHR 0x0A then [BSL, CHR ''n'']
      else if c = CHR 0x0D then [BSL, CHR ''r'']
      else if c = CHR 0x09 then [BSL, CHR ''t'']
      else if c = CHR 0x08 then [BSL, CHR ''b'']
      else if c = CHR 0x0C then [BSL, CHR ''f'']
      else if (of_char c :: nat) < 32
        then [BSL, CHR ''u'', CHR ''0'', CHR ''0'',
              hex_char ((of_char c :: nat) div 16), hex_char ((of_char c :: nat) mod 16)]
      else [c])"

definition encode_str :: "string \<Rightarrow> string" where
  "encode_str s = [DQ] @ concat (map escape_char s) @ [DQ]"

definition str_int :: "int \<Rightarrow> string" where
  "str_int i = (if i < 0 then CHR ''-'' # str_nat (nat (- i)) else str_nat (nat i))"

fun join :: "string \<Rightarrow> string list \<Rightarrow> string" where
  "join sep [] = []"
| "join sep [x] = x"
| "join sep (x # y # ys) = x @ sep @ join sep (y # ys)"

fun ref_dumps :: "json \<Rightarrow> string" where
  "ref_dumps JNull = ''null''"
| "ref_dumps (JBool b) = (if b then ''true'' else ''false'')"
| "ref_dumps (JInt i) = str_int i"
| "ref_dumps (JStr s) = encode_str s"
| "ref_dumps (JList xs) = ''['' @ join '', '' (map ref_dumps xs) @ '']''"
| "ref_dumps (JObj kvs) =
     ''{'' @ join '', '' (map (\<lambda>kv. encode_str (fst kv) @ '': '' @ ref_dumps (snd kv)) kvs) @ ''}''"


definition is_ws :: "char \<Rightarrow> bool" where
  "is_ws c \<longleftrightarrow> c = CHR '' '' \<or> c = CHR 0x09 \<or> c = CHR 0x0A \<or> c = CHR 0x0D"

definition skip_ws :: "string \<Rightarrow> string" where
  "skip_ws s = dropWhile is_ws s"

definition is_digit :: "char \<Rightarrow> bool" where
  "is_digit c \<longleftrightarrow> 48 \<le> (of_char c :: nat) \<and> (of_char c :: nat) \<le> 57"

definition nat_of_digits :: "string \<Rightarrow> nat" where
  "nat_of_digits ds = foldl (\<lambda>a c. 10 * a + ((of_char c :: nat) - 48)) 0 ds"

definition parse_int :: "string \<Rightarrow> (json \<times> string) option" where
  "parse_int s =
     (let neg = (case s of [] \<Rightarrow> False | c # cs \<Rightarrow> c = CHR ''-'');
          s1 = (if neg then tl s else s)
      in case takeWhile is_digit s1 of
           [] \<Rightarrow> None
         | d # ds \<Rightarrow>
             if d = CHR ''0'' then Some (JInt 0, tl s1)
             else Some (JInt (if neg then - int (nat_of_digits (d # ds))
                              else int (nat_of_digits (d # ds))),
                        dropWhile is_digit s1))"

definition hex_val :: "char \<Rightarrow> nat option" where
  "hex_val c =
     (let n = (of_char c :: nat) in
      if 48 \<le> n \<and> n \<le> 57 then Some (n - 48)
      else if 97 \<le> n \<and> n \<le> 102 then Some (n - 87)
      else if 65 \<le> n \<and> n \<le> 70 then Some (n - 55)
      else None)"

definition hex4 :: "string \<Rightarrow> nat option" where
  "hex4 s =
     (case map hex_val s of
        [Some a, Some b, Some c, Some d] \<Rightarrow> Some (((a * 16 + b) * 16 + c) * 16 + d)
      | _ \<Rightarrow> None)"

definition unescape :: "char \<Rightarrow> char option" where
  "unescape e =
     (if e = DQ then Some DQ
      else if e = BSL then Some BSL
      else if e = CHR ''/'' then Some (CHR ''/'')
      else if e = CHR ''b'' then Some (CHR 0x08)
      else if e = CHR ''f'' then Some (CHR 0x0C)
      else if e = CHR ''n'' then Some (CHR 0x0A)
      else if e = CHR ''r'' then Some (CHR 0x0D)
      else if e = CHR ''t'' then Some (CHR 0x09)
      else None)"

fun parse_chars :: "string \<Rightarrow> string \<Rightarrow> (string \<times> string) option" where
  "parse_chars acc [] = None"
| "parse_chars acc [c] = (if c = DQ then Some (acc, []) else None)"
| "parse_chars acc (c # e # es) =
     (if c = DQ then Some (acc, e # es)
      else if c = BSL then
        (if e = CHR ''u'' then
           (case hex4 (take 4 es) of
              None \<Rightarrow> None
            | Some n \<Rightarrow> if n < 256 then parse_chars (acc @ [char_of n]) (drop 4 es) else None)
         else
           (case unescape e of
              None \<Rightarrow> None
            | Some ch \<Rightarrow> parse_chars (acc @ [ch]) es))
      else if (of_char c :: nat) < 32 then None
      else parse_chars (acc @ [c]) (e # es))"

fun parse_value :: "nat \<Rightarrow> string \<Rightarrow> (json \<times> string) option"
and parse_elems :: "nat \<Rightarrow> json list \<Rightarrow> string \<Rightarrow> (json \<times> string) option"
and parse_members :: "nat \<Rightarrow> dict \<Rightarrow> string \<Rightarrow> (json \<times> string) option" where
  "parse_value 0 s = None"
| "parse_value (Suc n) [] = None"
| "parse_value (Suc n) (c # cs) =
     (if c = DQ then
        (case parse_chars [] cs of None \<Rightarrow> None | Some (str, r) \<Rightarrow> Some (JStr str, r))
      else if c = CHR ''['' then
        (case skip_ws cs of
           [] \<Rightarrow> None
         | d # ds \<Rightarrow> if d = CHR '']'' then Some (JList [], ds) else parse_elems n [] (d # ds))
      else if c = CHR ''{'' then
        (case skip_ws cs of
           [] \<Rightarrow> None
         | d # ds \<Rightarrow> if d = CHR ''}'' then Some (JObj [], ds) else parse_members n [] (d # ds))
      else if take 4 (c # cs) = ''null'' then Some (JNull, drop 4 (c # cs))
      else if take 4 (c # cs) = ''true'' then Some (JBool True, drop 4 (c # cs))
      else if take 5 (c # cs) = ''false'' then Some (JBool False, drop 5 (c # cs))
      else parse_int (c # cs))"
| "parse_elems 0 acc s = None"
| "parse_elems (Suc n) acc s =
     (case parse_value n s of
        None \<Rightarrow> None
      | Some (v, r) \<Rightarrow>
          (case skip_ws r of
             [] \<Rightarrow> None
           | d # ds \<Rightarrow>
               if d = CHR '','' then parse_elems n (acc @ [v]) (skip_ws ds)
               else if d = CHR '']'' then Some (JList (acc @ [v]), ds)
               else None))"
| "parse_members 0 acc s = None"
| "parse_members (Suc n) acc s =
     (case s of
        [] \<Rightarrow> None
      | q # qs \<Rightarrow>
          if q \<noteq> DQ then None
          else
            (case parse_chars [] qs of
               None \<Rightarrow> None
             | Some (k, r) \<Rightarrow>
                 (case skip_ws r of
                    [] \<Rightarrow> None
                  | c # cs \<Rightarrow>
                      if c \<noteq> CHR '':'' then None
                      else
                        (case parse_value n (skip_ws cs) of
                           None \<Rightarrow> None
                         | Some (v, r') \<Rightarrow>
                             (case skip_ws r' of
                                [] \<Rightarrow> None
                              | d # ds \<Rightarrow>
                                  if d = CHR '','' then parse_members n (dict_set acc k v) (skip_ws ds)
                                  else if d = CHR ''}'' then Some (JObj (dict_set acc k v), ds)
                                  else None)))))"

definition ref_loads :: "string \<Rightarrow> json option" where
  "ref_loads s =
     (case parse_value (Suc (length s)) (skip_ws s) of
        None \<Rightarrow> None
      | Some (v, r) \<Rightarrow> if skip_ws r = [] then Some v else None)"

text \<open>
  A value is well formed when no dictionary in it has a key twice, as is the case for every
  Python dictionary.  \<open>ok_rest\<close> and \<open>starts_value\<close> describe the text around an encoded
  value: no digit follows it, and it begins with neither white space nor a closing bracket.
\<close>

fun wf_json :: "json \<Rightarrow> bool" where
  "wf_json (JList xs) = (\<forall>x\<in>set xs. wf_json x)"
| "wf_json (JObj kvs) = (distinct (map fst kvs) \<and> (\<forall>kv\<in>set kvs. wf_json (snd kv)))"
| "wf_json v = True"

definition starts_value :: "string \<Rightarrow> bool" where
  "starts_value s \<longleftrightarrow>
     (case s of [] \<Rightarrow> False
      | c # cs \<Rightarrow> \<not> is_ws c \<and> c \<noteq> CHR '']'' \<and> c \<noteq> CHR ''}'')"

definition ok_rest :: "string \<Rightarrow> bool" where
  "ok_rest r \<longleftrightarrow> (case r of [] \<Rightarrow> True | c # cs \<Rightarrow> \<not> is_digit c)"

section \<open>A sample world\<close>

definition sample_world :: world where
  "sample_world =
     \<lparr>stdout = [],
      files = Map.empty,
      writable = (\<lambda>p. True),
      environ = [''TABLE_NAME'' \<mapsto> ''peliculas''],
      clock = (\<lambda>n. ''2024-05-01T10:00:0'' @ str_nat n),
      ticks = 0,
      uuid_src = Abs_uuid_gen (\<lambda>n. ''3f2b8c1e-5d4a-4e6f-9a7b-0c1d2e3f4a5'' @ str_nat n),
      drawn = 0,
      json_loads = ref_loads,
      json_dumps = ref_dumps,
      put_item = (\<lambda>t item. PutOk (JObj []))\<rparr>"



section \<open>Decimal numerals\<close>

lemma str_nat_small: "n < 10 \<Longrightarrow> str_nat n = [digit_char n]"
  by (subst str_nat.simps) simp

lemma str_nat_big: "\<not> n < 10 \<Longrightarrow> str_nat n = str_nat (n div 10) @ [digit_char (n mod 10)]"
  by (subst str_nat.simps) simp

lemma digit_char_simps:
  "digit_char 0 = CHR ''0''" "digit_char 1 = CHR ''1''" "digit_char 2 = CHR ''2''"
  "digit_char (Suc 0) = CHR ''1''" "digit_char 3 = CHR ''3''"
  by code_simp+

lemma is_digit_digit_char: "d < 10 \<Longrightarrow> is_digit (digit_char d)"
  by (simp add: is_digit_def digit_char_def)

lemma digit_val_digit_char: "d < 10 \<Longrightarrow> (of_char (digit_char d) :: nat) - 48 = d"
  by (simp add: digit_char_def)

lemma digit_char_eq_0: "d < 10 \<Longrightarrow> digit_char d = CHR ''0'' \<longleftrightarrow> d = 0"
  by (auto simp: digit_char_def char_of_eq_iff take_bit_eq_mod)

lemma str_nat_digits: "\<forall>c\<in>set (str_nat n). is_digit c"
proof (induction n rule: str_nat.induct)
  case (1 n)
  show ?case
  proof (cases "n < 10")
    case True
    then show ?thesis by (simp add: str_nat_small is_digit_digit_char)
  next
    case False
    then show ?thesis using 1 by (simp add: str_nat_big is_digit_digit_char)
  qed
qed

lemma str_nat_nonempty: "str_nat n \<noteq> []"
  by (cases "n < 10") (simp_all add: str_nat_small str_nat_big)

lemma nat_of_digits_snoc:
  "nat_of_digits (ds @ [c]) = 10 * nat_of_digits ds + ((of_char c :: nat) - 48)"
  by (simp add: nat_of_digits_def)

lemma nat_of_digits_str_nat: "nat_of_digits (str_nat n) = n"
proof (induction n rule: str_nat.induct)
  case (1 n)
  show ?case
  proof (cases "n < 10")
    case True
    then show ?thesis
      by (simp add: str_nat_small nat_of_digits_def digit_val_digit_char)
  next
    case False
    then have "nat_of_digits (str_nat n) =
        10 * nat_of_digits (str_nat (n div 10)) + ((of_char (digit_char (n mod 10)) :: nat) - 48)"
      by (simp add: str_nat_big nat_of_digits_snoc)
    then show ?thesis using 1 False by (simp add: digit_val_digit_char)
  qed
qed

lemma hd_str_nat: "hd (str_nat n) = CHR ''0'' \<longleftrightarrow> n = 0"
proof (induction n rule: str_nat.induct)
  case (1 n)
  show ?case
  proof (cases "n < 10")
    case True
    then show ?thesis by (simp add: str_nat_small digit_char_eq_0)
  next
    case False
    then have "hd (str_nat n) = hd (str_nat (n div 10))"
      by (simp add: str_nat_big str_nat_nonempty)
    then show ?thesis using 1 False by simp
  qed
qed

lemma str_nat_0: "str_nat 0 = ''0''"
  by (simp add: str_nat_small digit_char_simps)

lemma inj_str_nat: "inj str_nat"
  by (rule inj_on_inverseI [where g = nat_of_digits]) (rule nat_of_digits_str_nat)

section \<open>The sample world\<close>

lemma sample_world_simps:
  "stdout sample_world = []"
  "files sample_world = Map.empty"
  "writable sample_world = (\<lambda>p. True)"
  "environ sample_world = [''TABLE_NAME'' \<mapsto> ''peliculas'']"
  "ticks sample_world = 0"
  "drawn sample_world = 0"
  "json_loads sample_world = ref_loads"
  "json_dumps sample_world = ref_dumps"
  "put_item sample_world = (\<lambda>t item. PutOk (JObj []))"
  "clock sample_world = (\<lambda>n. ''2024-05-01T10:00:0'' @ str_nat n)"
  by (simp_all add: sample_world_def)

lemma uuid4_nth_props:
  "uuid4_nth g n \<noteq> []" "uuid4_nth g m = uuid4_nth g n \<longleftrightarrow> m = n"
  using uuid4_nth [of g] by (auto simp: inj_def)

lemma sample_uuid:
  "uuid4_nth (uuid_src sample_world) n = ''3f2b8c1e-5d4a-4e6f-9a7b-0c1d2e3f4a5'' @ str_nat n"
proof -
  have "inj (\<lambda>n. ''3f2b8c1e-5d4a-4e6f-9a7b-0c1d2e3f4a5'' @ str_nat n)"
    using inj_str_nat by (auto simp: inj_def)
  then have "uuid4_nth (Abs_uuid_gen (\<lambda>n. ''3f2b8c1e-5d4a-4e6f-9a7b-0c1d2e3f4a5'' @ str_nat n))
               = (\<lambda>n. ''3f2b8c1e-5d4a-4e6f-9a7b-0c1d2e3f4a5'' @ str_nat n)"
    by (intro Abs_uuid_gen_inverse) simp
  then show ?thesis by (simp add: sample_world_def)
qed

section \<open>Properties of the handler\<close>

lemma make_log_entry_eq:
  "make_log_entry tipo datos w =
     (JObj [(''tipo'', JStr tipo),
            (''log_datos'', JObj (dict_merge [(''timestamp'', JStr (clock w (ticks w) @ ''Z''))] datos))],
      w\<lparr>ticks := Suc (ticks w)\<rparr>)"
  by (simp add: make_log_entry_def iso_now_def)



lemma required_fields_missing:
  assumes "map_of kvs ''tenant_id'' = None \<or> map_of kvs ''pelicula_datos'' = None"
  shows "required_fields (JObj kvs) =
           Inl (KeyError (if map_of kvs ''tenant_id'' = None then ''tenant_id'' else ''pelicula_datos''))"
  using assms by (auto simp: required_fields_def split: option.splits)

lemma required_fields_present:
  assumes "map_of kvs ''tenant_id'' = Some t" and "map_of kvs ''pelicula_datos'' = Some d"
  shows "required_fields (JObj kvs) = Inr (t, d)"
  using assms by (simp add: required_fields_def)

lemma handler_KeyError:
  assumes "required_fields (normalize_body event w) = Inl (KeyError k)"
  shows "lambda_handler event context w =
           (Inr \<lparr>statusCode = 400,
                 body = json_dumps w (JObj [(''error'',
                          JStr (''missing required field: '' @ str_KeyError k))])\<rparr>,
            log_both (JObj [(''tipo'', JStr ''ERROR''),
                           (''log_datos'', JObj [(''timestamp'', JStr (clock w (ticks w) @ ''Z'')),
                                                (''action'', JStr ''parse_input''),
                                                (''message'', JStr ''missing required field in body''),
                                                (''missing_field'', JStr (str_KeyError k)),
                                                (''body'', normalize_body event w)])])
                     (w\<lparr>ticks := Suc (ticks w)\<rparr>))"
  using assms by (simp add: lambda_handler_def Let_def make_log_entry_eq)

lemma subscript_TypeError:
  "\<forall>kvs. b \<noteq> JObj kvs \<Longrightarrow> subscript b k = Inl TypeError"
  by (cases b) simp_all

lemma required_fields_TypeError:
  "\<forall>kvs. b \<noteq> JObj kvs \<Longrightarrow> required_fields b = Inl TypeError"
  using subscript_TypeError [of b "''tenant_id''"] by (simp add: required_fields_def)

lemma handler_TypeError:
  assumes "required_fields (normalize_body event w) = Inl TypeError"
  shows "lambda_handler event context w = (Inl TypeError, w)"
  using assms by (simp add: lambda_handler_def Let_def)


lemma handler_success:
  assumes "required_fields (normalize_body event w) = Inr (t, d)"
    and "environ w ''TABLE_NAME'' = Some tbl" and "tbl \<noteq> []"
    and "put_item w tbl (JObj [(''tenant_id'', t), (''uuid'', JStr (uuid4_nth (uuid_src w) (drawn w))),
                               (''pelicula_datos'', d)]) = PutOk resp"
  shows "lambda_handler event context w =
           (Inr \<lparr>statusCode = 200,
                 body = json_dumps w
                   (JObj [(''pelicula'', JObj [(''tenant_id'', t),
                                               (''uuid'', JStr (uuid4_nth (uuid_src w) (drawn w))),
                                               (''pelicula_datos'', d)]),
                          (''dynamodb_response'', resp)])\<rparr>,
            log_both (JObj [(''tipo'', JStr ''INFO''),
                           (''log_datos'', JObj [(''timestamp'', JStr (clock w (ticks w) @ ''Z'')),
                                                (''action'', JStr ''create_movie''),
                                                (''status'', JStr ''success''),
                                                (''pelicula'', JObj [(''tenant_id'', t),
                                                   (''uuid'', JStr (uuid4_nth (uuid_src w) (drawn w))),
                                                   (''pelicula_datos'', d)]),
                                                (''dynamodb_response_metadata'', response_metadata resp)])])
                     (w\<lparr>drawn := Suc (drawn w), ticks := Suc (ticks w)\<rparr>))"
  using assms by (simp add: lambda_handler_def Let_def make_log_entry_eq)

lemma log_both_frame:
  "json_loads (log_both entry w) = json_loads w"
  "json_dumps (log_both entry w) = json_dumps w"
  "environ (log_both entry w) = environ w"
  "put_item (log_both entry w) = put_item w"
  "uuid_src (log_both entry w) = uuid_src w"
  "drawn (log_both entry w) = drawn w"
  "clock (log_both entry w) = clock w"
  by (simp_all add: log_both_def print_log_def append_log_file_def file_append_def make_log_entry_eq)

lemma normalize_body_cong:
  "json_loads w' = json_loads w \<Longrightarrow> normalize_body event w' = normalize_body event w"
  by (auto simp: normalize_body_def split: json.splits option.splits)

lemma fst_lambda_handler_cong:
  assumes "json_loads w' = json_loads w" "json_dumps w' = json_dumps w" "environ w' = environ w"
    "uuid_src w' = uuid_src w" "drawn w' = drawn w" "put_item w' = put_item w"
  shows "fst (lambda_handler event context w') = fst (lambda_handler event context w)"
proof -
  have nb: "normalize_body event w' = normalize_body event w"
    using assms(1) by (rule normalize_body_cong)
  show ?thesis
    by (simp add: lambda_handler_def Let_def make_log_entry_eq nb assms
          split: sum.split exn.split put_result.split prod.split)
qed







text \<open>
  Claim C4.  When \<^verbatim>\<open>event['body']\<close> is a string on which \<^verbatim>\<open>json.loads\<close> raises
  \<^verbatim>\<open>JSONDecodeError\<close>, the body becomes the empty dictionary and the handler returns status
  400 naming \<^verbatim>\<open>tenant_id\<close>; the parse error does not reach the caller.
\<close>

theorem unparsable_body_is_empty_dict:
  assumes "event = JObj ev" and "map_of ev ''body'' = Some (JStr s)" and "json_loads w s = None"
  shows "normalize_body event w = JObj []
       \<and> fst (lambda_handler event context w) =
              Inr \<lparr>statusCode = 400,
                   body = json_dumps w (JObj [(''error'',
                     JStr (''missing required field: '' @ [CHR 0x27] @ ''tenant_id'' @ [CHR 0x27]))])\<rparr>"
proof -
  have nb: "normalize_body event w = JObj []"
    using assms by (simp add: normalize_body_def)
  then have "required_fields (normalize_body event w) = Inl (KeyError ''tenant_id'')"
    using required_fields_missing [of "[]"] by simp
  then show ?thesis
    using nb by (simp add: handler_KeyError str_KeyError_def SQ_def)
qed

theorem unparsable_body_is_empty_dict_witness:
  "ref_loads ''{not valid json'' = None
   \<and> normalize_body (JObj [(''body'', JStr ''{not valid json'')]) sample_world = JObj []
   \<and> fst (lambda_handler (JObj [(''body'', JStr ''{not valid json'')]) JNull sample_world) =
       Inr \<lparr>statusCode = 400,
            body = ''{\"error\": \"missing required field: '' @ [CHR 0x27] @ ''tenant_id''
                 @ [CHR 0x27] @ ''\"}''\<rparr>"
proof -
  have l: "ref_loads ''{not valid json'' = None" by code_simp
  then have l': "json_loads sample_world ''{not valid json'' = None"
    by (simp add: sample_world_simps)
  have m: "map_of [(''body'', JStr ''{not valid json'')] ''body'' = Some (JStr ''{not valid json'')"
    by simp
  have e: "ref_dumps (JObj [(''error'',
                     JStr (''missing required field: '' @ [CHR 0x27] @ ''tenant_id'' @ [CHR 0x27]))])
      = ''{\"error\": \"missing required field: '' @ [CHR 0x27] @ ''tenant_id''
                 @ [CHR 0x27] @ ''\"}''" by code_simp
  show ?thesis
    unfolding e [symmetric]
    using unparsable_body_is_empty_dict [OF refl m l', of JNull] l
    by (simp add: sample_world_simps del: ref_dumps.simps)
qed

lemma handler_raises_unless_dict:
  assumes "\<forall>kvs. normalize_body event w \<noteq> JObj kvs"
  shows "lambda_handler event context w = (Inl TypeError, w)"
  using required_fields_TypeError [OF assms] by (rule handler_TypeError)

text \<open>
  Claim C5.  The handler does not return a response for every event.  The \<^verbatim>\<open>try\<close> around the
  two subscripts catches \<^verbatim>\<open>KeyError\<close> only, and a body that \<^verbatim>\<open>json.loads\<close> turns into a list
  raises \<^verbatim>\<open>TypeError\<close> at \<^verbatim>\<open>body['tenant_id']\<close>: the exception leaves the handler, nothing
  is logged.  Evaluated here on the event \<^verbatim>\<open>{"body": "[1, 2]"}\<close>.
\<close>

theorem handler_raises_on_list_body:
  "ref_loads ''[1, 2]'' = Some (JList [JInt 1, JInt 2])
   \<and> lambda_handler (JObj [(''body'', JStr ''[1, 2]'')]) JNull sample_world =
       (Inl TypeError, sample_world)"
proof -
  have l: "ref_loads ''[1, 2]'' = Some (JList [JInt 1, JInt 2])" by code_simp
  have nb: "normalize_body (JObj [(''body'', JStr ''[1, 2]'')]) sample_world = JList [JInt 1, JInt 2]"
    by (simp add: normalize_body_def sample_world_simps l)
  have "required_fields (JList [JInt 1, JInt 2]) =
          Inl TypeError"
    by (simp add: required_fields_def)
  then show ?thesis
    using l nb by (simp add: handler_TypeError)
qed

text \<open>
  Claim C9.  When the write to the log file raises, \<^verbatim>\<open>append_log_file\<close> still returns: it
  prints exactly one ERROR entry that names the path, and leaves every file as it was.  The
  response of the handler does not depend on which paths can be written.
\<close>

theorem append_log_file_failure_contained:
  assumes "file_append path (json_dumps w entry @ [LF]) w = Inl e"
  shows "append_log_file entry path w =
           w\<lparr>ticks := Suc (ticks w),
             stdout := stdout w @ [json_dumps w
               (JObj [(''tipo'', JStr ''ERROR''),
                      (''log_datos'', JObj [(''timestamp'', JStr (clock w (ticks w) @ ''Z'')),
                                           (''action'', JStr ''append_log_file''),
                                           (''message'', JStr ''failed to append log file''),
                                           (''error'', JStr (''could not write to '' @ path))])])]\<rparr>
       \<and> files (append_log_file entry path w) = files w
       \<and> (\<forall>wr. fst (lambda_handler event context (w\<lparr>writable := wr\<rparr>)) =
                 fst (lambda_handler event context w))"
proof -
  have a: "append_log_file entry path w =
           w\<lparr>ticks := Suc (ticks w),
             stdout := stdout w @ [json_dumps w
               (JObj [(''tipo'', JStr ''ERROR''),
                      (''log_datos'', JObj [(''timestamp'', JStr (clock w (ticks w) @ ''Z'')),
                                           (''action'', JStr ''append_log_file''),
                                           (''message'', JStr ''failed to append log file''),
                                           (''error'', JStr (''could not write to '' @ path))])])]\<rparr>"
    using assms by (simp add: append_log_file_def make_log_entry_eq)
  have b: "files (append_log_file entry path w) = files w"
    unfolding a by simp
  have c: "(\<forall>wr. fst (lambda_handler event context (w\<lparr>writable := wr\<rparr>)) =
                 fst (lambda_handler event context w))"
    by (intro allI fst_lambda_handler_cong) simp_all
  show ?thesis using a b c by blast
qed

theorem append_log_file_failure_contained_witness:
  "let w = sample_world\<lparr>writable := (\<lambda>p. False)\<rparr>
   in file_append LOG_PATH (ref_dumps (JObj [(''tipo'', JStr ''INFO'')]) @ [LF]) w = Inl OSError
    \<and> stdout (append_log_file (JObj [(''tipo'', JStr ''INFO'')]) LOG_PATH w) =
        [ref_dumps (JObj [(''tipo'', JStr ''ERROR''),
                      (''log_datos'', JObj [(''timestamp'', JStr ''2024-05-01T10:00:00Z''),
                                           (''action'', JStr ''append_log_file''),
                                           (''message'', JStr ''failed to append log file''),
                                           (''error'', JStr (''could not write to '' @ LOG_PATH))])])]
    \<and> files (append_log_file (JObj [(''tipo'', JStr ''INFO'')]) LOG_PATH w) LOG_PATH = None"
proof -
  let ?w = "sample_world\<lparr>writable := (\<lambda>p. False)\<rparr>"
  have f: "file_append LOG_PATH (json_dumps ?w (JObj [(''tipo'', JStr ''INFO'')]) @ [LF]) ?w
             = Inl OSError"
    by (simp add: file_append_def)
  show ?thesis
    using append_log_file_failure_contained [OF f, of JNull JNull] f
    by (simp add: Let_def sample_world_simps str_nat_small digit_char_simps del: ref_dumps.simps)
qed

section \<open>Properties of the log reader\<close>

lemma sum_counts_incr: "sum_list (map snd (counts_incr counts t)) = sum_list (map snd counts) + 1"
  by (induction counts t rule: counts_incr.induct) auto

lemma key_eq_JStr: "key_eq k (JStr u) \<longleftrightarrow> k = JStr u" "key_eq (JStr u) t \<longleftrightarrow> JStr u = t"
  by (cases k; simp) (cases t; simp)

lemma map_of_counts_incr:
  "map_of (counts_incr counts t) (JStr u) =
     (if t = JStr u then Some (case map_of counts (JStr u) of None \<Rightarrow> 1 | Some c \<Rightarrow> c + 1)
      else map_of counts (JStr u))"
proof (induction counts t rule: counts_incr.induct)
  case (1 t)
  then show ?case by auto
next
  case (2 k c kcs t)
  then show ?case by (auto simp: key_eq_JStr)
qed

lemma count_loop_Inr:
  assumes "\<forall>e\<in>set es. hashable (tipo_of e)"
  shows "\<exists>counts'. count_loop es counts = Inr counts'
           \<and> sum_list (map snd counts') = sum_list (map snd counts) + int (length es)
           \<and> (case map_of counts' (JStr u) of None \<Rightarrow> 0 | Some c \<Rightarrow> c) =
               (case map_of counts (JStr u) of None \<Rightarrow> 0 | Some c \<Rightarrow> c)
               + int (length [e \<leftarrow> es. tipo_of e = JStr u])"
  using assms
proof (induction es arbitrary: counts)
  case Nil
  then show ?case by simp
next
  case (Cons e es)
  let ?c1 = "counts_incr counts (tipo_of e)"
  from Cons.prems have h: "hashable (tipo_of e)" and rest: "\<forall>e\<in>set es. hashable (tipo_of e)"
    by simp_all
  from Cons.IH [OF rest, of ?c1] obtain counts' where
    r: "count_loop es ?c1 = Inr counts'"
    and s: "sum_list (map snd counts') = sum_list (map snd ?c1) + int (length es)"
    and m: "(case map_of counts' (JStr u) of None \<Rightarrow> 0 | Some c \<Rightarrow> c) =
               (case map_of ?c1 (JStr u) of None \<Rightarrow> 0 | Some c \<Rightarrow> c)
               + int (length [e \<leftarrow> es. tipo_of e = JStr u])"
    by blast
  have "count_loop (e # es) counts = Inr counts'"
    using h r by (simp add: tipo_of_def Let_def)
  moreover have "sum_list (map snd counts') = sum_list (map snd counts) + int (length (e # es))"
    using s by (simp add: sum_counts_incr)
  moreover have "(case map_of counts' (JStr u) of None \<Rightarrow> 0 | Some c \<Rightarrow> c) =
               (case map_of counts (JStr u) of None \<Rightarrow> 0 | Some c \<Rightarrow> c)
               + int (length [e \<leftarrow> e # es. tipo_of e = JStr u])"
    using m by (simp add: map_of_counts_incr split: option.splits)
  ultimately show ?case by blast
qed

lemma filter_by_tipo_hashable:
  "\<forall>e\<in>set (filter_by_tipo entries tipo). hashable (tipo_of e)"
  by (simp add: filter_by_tipo_def tipo_of_def)

text \<open>
  Claim C8.  \<^verbatim>\<open>count_by_tipo\<close> of \<^verbatim>\<open>filter_by_tipo(entries, "ERROR")\<close> returns, and its counts
  add up to the number of entries whose \<^verbatim>\<open>tipo\<close> is the string \<^verbatim>\<open>ERROR\<close>.
  \<^verbatim>\<open>filter_by_tipo\<close> keeps the order of the entries and exactly those whose \<^verbatim>\<open>tipo\<close> is the
  given string, so an entry without \<^verbatim>\<open>tipo\<close> is never kept.  When every \<^verbatim>\<open>tipo\<close> is hashable,
  \<^verbatim>\<open>count_by_tipo\<close> returns and its count under \<^verbatim>\<open>UNKNOWN\<close> is the number of entries without
  \<^verbatim>\<open>tipo\<close> plus those whose \<^verbatim>\<open>tipo\<close> is the string \<^verbatim>\<open>UNKNOWN\<close>.
\<close>

theorem count_of_filtered_ERROR:
  "(case count_by_tipo (filter_by_tipo entries ''ERROR'') of
      Inl e \<Rightarrow> False
    | Inr counts \<Rightarrow>
        sum_list (map snd counts) =
          int (length [e \<leftarrow> entries. map_of e ''tipo'' = Some (JStr ''ERROR'')]))
   \<and> subseq (filter_by_tipo entries tipo) entries
   \<and> set (filter_by_tipo entries tipo) = {e \<in> set entries. map_of e ''tipo'' = Some (JStr tipo)}
   \<and> (\<forall>e. map_of e ''tipo'' = None \<longrightarrow> e \<notin> set (filter_by_tipo entries tipo))
   \<and> ((\<forall>e\<in>set entries. \<forall>v. map_of e ''tipo'' = Some v \<longrightarrow> hashable v) \<longrightarrow>
        (case count_by_tipo entries of
           Inl e \<Rightarrow> False
         | Inr counts \<Rightarrow>
             (case map_of counts (JStr ''UNKNOWN'') of None \<Rightarrow> 0 | Some c \<Rightarrow> c) =
               int (length [e \<leftarrow> entries. map_of e ''tipo'' = None
                                        \<or> map_of e ''tipo'' = Some (JStr ''UNKNOWN'')])))"
proof (intro conjI impI)
  from count_loop_Inr [OF filter_by_tipo_hashable, of entries "''ERROR''" "[]" "''ERROR''"]
  show "case count_by_tipo (filter_by_tipo entries ''ERROR'') of
      Inl e \<Rightarrow> False
    | Inr counts \<Rightarrow>
        sum_list (map snd counts) =
          int (length [e \<leftarrow> entries. map_of e ''tipo'' = Some (JStr ''ERROR'')])"
    by (auto simp: count_by_tipo_def filter_by_tipo_def)
next
  show "subseq (filter_by_tipo entries tipo) entries"
    by (simp add: filter_by_tipo_def)
next
  show "set (filter_by_tipo entries tipo) = {e \<in> set entries. map_of e ''tipo'' = Some (JStr tipo)}"
    by (simp add: filter_by_tipo_def)
next
  show "\<forall>e. map_of e ''tipo'' = None \<longrightarrow> e \<notin> set (filter_by_tipo entries tipo)"
    by (simp add: filter_by_tipo_def)
next
  assume "\<forall>e\<in>set entries. \<forall>v. map_of e ''tipo'' = Some v \<longrightarrow> hashable v"
  then have h: "\<forall>e\<in>set entries. hashable (tipo_of e)"
    by (auto simp: tipo_of_def split: option.splits)
  have eq: "[e \<leftarrow> entries. tipo_of e = JStr ''UNKNOWN''] =
            [e \<leftarrow> entries. map_of e ''tipo'' = None \<or> map_of e ''tipo'' = Some (JStr ''UNKNOWN'')]"
    by (rule filter_cong) (auto simp: tipo_of_def split: option.splits)
  from count_loop_Inr [OF h, of "[]" "''UNKNOWN''"]
  show "case count_by_tipo entries of
           Inl e \<Rightarrow> False
         | Inr counts \<Rightarrow>
             (case map_of counts (JStr ''UNKNOWN'') of None \<Rightarrow> 0 | Some c \<Rightarrow> c) =
               int (length [e \<leftarrow> entries. map_of e ''tipo'' = None
                                        \<or> map_of e ''tipo'' = Some (JStr ''UNKNOWN'')])"
    by (auto simp: count_by_tipo_def eq)
qed

theorem count_of_filtered_ERROR_witness:
  "let entries = [[(''tipo'', JStr ''ERROR''), (''log_datos'', JObj [])],
                  [(''log_datos'', JObj [])],
                  [(''tipo'', JStr ''INFO'')],
                  [(''tipo'', JStr ''ERROR'')],
                  [(''tipo'', JInt 1)],
                  [(''tipo'', JBool True)]]
   in filter_by_tipo entries ''ERROR'' = [[(''tipo'', JStr ''ERROR''), (''log_datos'', JObj [])],
                                          [(''tipo'', JStr ''ERROR'')]]
    \<and> count_by_tipo (filter_by_tipo entries ''ERROR'') = Inr [(JStr ''ERROR'', 2)]
    \<and> count_by_tipo entries =
        Inr [(JStr ''ERROR'', 2), (JStr ''UNKNOWN'', 1), (JStr ''INFO'', 1), (JInt 1, 2)]
    \<and> (\<forall>e\<in>set entries. \<forall>v. map_of e ''tipo'' = Some v \<longrightarrow> hashable v)"
  using count_of_filtered_ERROR [of "[[(''tipo'', JStr ''ERROR''), (''log_datos'', JObj [])],
                  [(''log_datos'', JObj [])],
                  [(''tipo'', JStr ''INFO'')],
                  [(''tipo'', JStr ''ERROR'')],
                  [(''tipo'', JInt 1)],
                  [(''tipo'', JBool True)]]" "''ERROR''"]
  by (simp add: Let_def filter_by_tipo_def count_by_tipo_def tipo_of_def)














section \<open>The reference \<^verbatim>\<open>json\<close> module reads back what it writes\<close>

subsection \<open>Strings\<close>

lemma hex_val_hex_char: "d < 16 \<Longrightarrow> hex_val (hex_char d) = Some d"
  by (auto simp: hex_val_def hex_char_def Let_def)

lemma hex4_u00:
  assumes "n < 32"
  shows "hex4 [CHR ''0'', CHR ''0'', hex_char (n div 16), hex_char (n mod 16)] = Some n"
proof -
  have z: "hex_val (CHR ''0'') = Some 0" by (simp add: hex_val_def)
  have a: "hex_val (hex_char (n div 16)) = Some (n div 16)"
    using assms by (intro hex_val_hex_char) simp
  have b: "hex_val (hex_char (n mod 16)) = Some (n mod 16)"
    by (intro hex_val_hex_char) simp
  show ?thesis by (simp add: hex4_def z a b)
qed

lemma parse_chars_escape:
  assumes "rest \<noteq> []"
  shows "parse_chars acc (escape_char c @ rest) = parse_chars (acc @ [c]) rest"
proof -
  obtain e es where rest: "rest = e # es" using assms by (cases rest) auto
  consider (dq) "c = DQ" | (bs) "c = BSL" | (n) "c = CHR 0x0A" | (r) "c = CHR 0x0D"
    | (t) "c = CHR 0x09" | (b) "c = CHR 0x08" | (f) "c = CHR 0x0C"
    | (ctl) "c \<noteq> DQ" "c \<noteq> BSL" "c \<noteq> CHR 0x0A" "c \<noteq> CHR 0x0D" "c \<noteq> CHR 0x09"
            "c \<noteq> CHR 0x08" "c \<noteq> CHR 0x0C" "(of_char c :: nat) < 32"
    | (plain) "c \<noteq> DQ" "c \<noteq> BSL" "\<not> (of_char c :: nat) < 32"
    by (cases "(of_char c :: nat) < 32") auto
  then show ?thesis
  proof cases
    case ctl
    have h: "hex4 (take 4 (CHR ''0'' # CHR ''0'' # hex_char (of_char c div 16)
                # hex_char (of_char c mod 16) # rest)) = Some (of_char c)"
      using hex4_u00 [OF ctl(8)] by simp
    show ?thesis
      using ctl h by (simp add: escape_char_def rest DQ_def BSL_def)
  next
    case plain
    then show ?thesis
      by (auto simp add: escape_char_def rest DQ_def BSL_def)
  qed (simp_all add: escape_char_def rest DQ_def BSL_def unescape_def)
qed

lemma concat_escape_nonempty: "concat (map escape_char s) @ DQ # r \<noteq> []"
  by simp

lemma parse_chars_encode:
  "parse_chars acc (concat (map escape_char s) @ DQ # r) = Some (acc @ s, r)"
proof (induction s arbitrary: acc)
  case Nil
  show ?case by (cases r) simp_all
next
  case (Cons c s)
  have "parse_chars acc (escape_char c @ (concat (map escape_char s) @ DQ # r))
          = parse_chars (acc @ [c]) (concat (map escape_char s) @ DQ # r)"
    by (rule parse_chars_escape) simp
  then show ?case by (simp add: Cons.IH)
qed

subsection \<open>Integers\<close>

lemma takeWhile_digits:
  assumes "ok_rest r"
  shows "takeWhile is_digit (str_nat n @ r) = str_nat n"
    and "dropWhile is_digit (str_nat n @ r) = r"
proof -
  have r: "takeWhile is_digit r = []" "dropWhile is_digit r = r"
    using assms by (cases r; simp add: ok_rest_def)+
  show "takeWhile is_digit (str_nat n @ r) = str_nat n"
    using str_nat_digits [of n] r by (simp add: takeWhile_append2)
  show "dropWhile is_digit (str_nat n @ r) = r"
    using str_nat_digits [of n] r by (simp add: dropWhile_append2)
qed

lemma str_nat_not_minus: "hd (str_nat n) \<noteq> CHR ''-''"
proof -
  have "is_digit (hd (str_nat n))"
    using str_nat_digits [of n] str_nat_nonempty [of n] by (cases "str_nat n") auto
  then show ?thesis by (auto simp: is_digit_def)
qed

lemma parse_int_str_nat:
  assumes "ok_rest r"
  shows "parse_int (str_nat n @ r) = Some (JInt (int n), r)"
proof -
  obtain d ds where s: "str_nat n = d # ds"
    using str_nat_nonempty [of n] by (cases "str_nat n") auto
  have nm: "d \<noteq> CHR ''-''" using str_nat_not_minus [of n] s by simp
  have tw: "takeWhile is_digit (d # ds @ r) = d # ds" "dropWhile is_digit (d # ds @ r) = r"
    using takeWhile_digits [OF assms, of n] s by simp_all
  have z: "d = CHR ''0'' \<longleftrightarrow> n = 0" using hd_str_nat [of n] s by simp
  have v: "nat_of_digits (d # ds) = n" using nat_of_digits_str_nat [of n] s by simp
  show ?thesis
  proof (cases "n = 0")
    case True
    then show ?thesis by (simp add: str_nat_0 parse_int_def is_digit_def)
  next
    case False
    then show ?thesis
      using nm tw z v by (simp add: s parse_int_def Let_def del: takeWhile.simps dropWhile.simps)
  qed
qed

lemma parse_int_str_int:
  assumes "ok_rest r"
  shows "parse_int (str_int i @ r) = Some (JInt i, r)"
proof (cases "i < 0")
  case False
  then show ?thesis using parse_int_str_nat [OF assms, of "nat i"] by (simp add: str_int_def)
next
  case True
  let ?n = "nat (- i)"
  obtain d ds where s: "str_nat ?n = d # ds"
    using str_nat_nonempty [of ?n] by (cases "str_nat ?n") auto
  have tw: "takeWhile is_digit (d # ds @ r) = d # ds" "dropWhile is_digit (d # ds @ r) = r"
    using takeWhile_digits [OF assms, of ?n] s by simp_all
  have z: "d \<noteq> CHR ''0''" using hd_str_nat [of ?n] s True by simp
  have v: "nat_of_digits (d # ds) = ?n" using nat_of_digits_str_nat [of ?n] s by simp
  show ?thesis
    using True tw z v
    by (simp add: str_int_def s parse_int_def Let_def del: takeWhile.simps dropWhile.simps)
qed

subsection \<open>Values\<close>

lemma skip_ws_starts_value: "starts_value s \<Longrightarrow> skip_ws s = s"
  by (cases s) (simp_all add: starts_value_def skip_ws_def)

lemma skip_ws_space: "skip_ws (CHR '' '' # s) = skip_ws s"
  by (simp add: skip_ws_def is_ws_def)

lemma skip_ws_punct:
  "skip_ws (CHR '','' # s) = CHR '','' # s"
  "skip_ws (CHR '']'' # s) = CHR '']'' # s"
  "skip_ws (CHR ''}'' # s) = CHR ''}'' # s"
  "skip_ws (CHR '':'' # s) = CHR '':'' # s"
  by (simp_all add: skip_ws_def is_ws_def)

lemma ok_rest_punct:
  "ok_rest (CHR '','' # s)" "ok_rest (CHR '']'' # s)" "ok_rest (CHR ''}'' # s)" "ok_rest []"
  by (simp_all add: ok_rest_def is_digit_def)

lemma hd_str_int: "\<exists>c cs. str_int i = c # cs \<and> (c = CHR ''-'' \<or> is_digit c)"
proof -
  obtain d ds where s: "str_nat (nat \<bar>i\<bar>) = d # ds"
    using str_nat_nonempty [of "nat \<bar>i\<bar>"] by (cases "str_nat (nat \<bar>i\<bar>)") auto
  have "is_digit d" using str_nat_digits [of "nat \<bar>i\<bar>"] s by simp
  then show ?thesis
    using s by (cases "i < 0") (auto simp: str_int_def abs_if)
qed

lemma starts_value_dumps: "starts_value (ref_dumps v @ r)"
proof (cases v)
  case (JInt i)
  obtain c cs where "str_int i = c # cs" "c = CHR ''-'' \<or> is_digit c"
    using hd_str_int by blast
  then show ?thesis
    using JInt by (auto simp: starts_value_def is_ws_def is_digit_def)
qed (auto simp: starts_value_def is_ws_def encode_str_def DQ_def)

lemma parse_value_JInt:
  assumes "ok_rest r"
  shows "parse_value (Suc n) (str_int i @ r) = Some (JInt i, r)"
proof -
  obtain c cs where s: "str_int i = c # cs" and c: "c = CHR ''-'' \<or> is_digit c"
    using hd_str_int by blast
  have ne: "c \<noteq> DQ" "c \<noteq> CHR ''[''" "c \<noteq> CHR ''{''" "c \<noteq> CHR ''n''" "c \<noteq> CHR ''t''"
    "c \<noteq> CHR ''f''"
    using c by (auto simp: DQ_def is_digit_def)
  have "parse_value (Suc n) (c # cs @ r) = parse_int (c # cs @ r)"
    using ne by simp
  then show ?thesis
    using parse_int_str_int [OF assms, of i] s by simp
qed

lemma parse_value_JStr:
  "parse_value (Suc n) (encode_str s @ r) = Some (JStr s, r)"
  by (simp add: encode_str_def parse_chars_encode)

lemma parse_elems_dumps:
  assumes IH: "\<And>x n r. x \<in> set xs \<Longrightarrow> size x < n \<Longrightarrow> ok_rest r
                 \<Longrightarrow> parse_value n (ref_dumps x @ r) = Some (x, r)"
    and "xs \<noteq> []" and "size_list size xs < n"
  shows "parse_elems n acc (join '', '' (map ref_dumps xs) @ CHR '']'' # r) = Some (JList (acc @ xs), r)"
  using assms
proof (induction xs arbitrary: n acc)
  case Nil
  then show ?case by simp
next
  case (Cons x xs)
  obtain m where n: "n = Suc m" using Cons.prems(3) by (cases n) auto
  have mx: "size x < m" and mxs: "size_list size xs < m"
    using Cons.prems(3) n by simp_all
  show ?case
  proof (cases xs)
    case Nil
    have "parse_value m (ref_dumps x @ CHR '']'' # r) = Some (x, CHR '']'' # r)"
      using Cons.prems(1) [of x m] mx by (simp add: ok_rest_punct)
    then show ?thesis
      using Nil n by (simp add: skip_ws_punct)
  next
    case (Cons y ys)
    let ?rest = "join '', '' (map ref_dumps xs) @ CHR '']'' # r"
    have sv: "starts_value ?rest"
      using Cons starts_value_dumps [of y] by (cases ys) (simp_all)
    have pv: "parse_value m (ref_dumps x @ CHR '','' # CHR '' '' # ?rest)
                = Some (x, CHR '','' # CHR '' '' # ?rest)"
      using Cons.prems(1) [of x m] mx by (simp add: ok_rest_punct)
    have rec: "parse_elems m (acc @ [x]) ?rest = Some (JList ((acc @ [x]) @ xs), r)"
      using Cons.IH [of m "acc @ [x]"] Cons.prems(1) mxs Cons by simp
    show ?thesis
      using Cons n pv rec sv
      by (simp add: skip_ws_punct skip_ws_space skip_ws_starts_value)
  qed
qed

lemma dict_set_fresh: "k \<notin> fst ` set acc \<Longrightarrow> dict_set acc k v = acc @ [(k, v)]"
  by (induction acc) auto

lemma parse_member_key:
  "parse_chars [] (concat (map escape_char k) @ DQ # r) = Some (k, r)"
  using parse_chars_encode [of "[]" k r] by simp

lemma parse_members_dumps:
  assumes IH: "\<And>kv n r. kv \<in> set kvs \<Longrightarrow> size (snd kv) < n \<Longrightarrow> ok_rest r
                 \<Longrightarrow> parse_value n (ref_dumps (snd kv) @ r) = Some (snd kv, r)"
    and "kvs \<noteq> []" and "size_list (\<lambda>kv. Suc (size (snd kv))) kvs < n"
    and "distinct (map fst (acc @ kvs))"
  shows "parse_members n acc
           (join '', '' (map (\<lambda>kv. encode_str (fst kv) @ '': '' @ ref_dumps (snd kv)) kvs)
            @ CHR ''}'' # r) = Some (JObj (acc @ kvs), r)"
  using assms
proof (induction kvs arbitrary: n acc)
  case Nil
  then show ?case by simp
next
  case (Cons kv kvs)
  obtain k v where kv: "kv = (k, v)" by (cases kv)
  obtain m where n: "n = Suc m" using Cons.prems(3) by (cases n) auto
  have mv: "size v < m" and mkvs: "size_list (\<lambda>kv. Suc (size (snd kv))) kvs < m"
    using Cons.prems(3) n kv by simp_all
  have fresh: "k \<notin> fst ` set acc" and dist: "distinct (map fst ((acc @ [(k, v)]) @ kvs))"
    using Cons.prems(4) kv by auto
  have ds: "dict_set acc k v = acc @ [(k, v)]"
    using fresh by (rule dict_set_fresh)
  show ?case
  proof (cases kvs)
    case Nil
    have pv: "parse_value m (ref_dumps v @ CHR ''}'' # r) = Some (v, CHR ''}'' # r)"
      using Cons.prems(1) [of kv m] mv kv by (simp add: ok_rest_punct)
    have sv: "skip_ws (CHR '' '' # ref_dumps v @ CHR ''}'' # r) = ref_dumps v @ CHR ''}'' # r"
      using starts_value_dumps [of v "CHR ''}'' # r"]
      by (simp add: skip_ws_space skip_ws_starts_value)
    show ?thesis
      using Nil n kv pv ds
      by (simp add: encode_str_def parse_member_key skip_ws_punct sv)
  next
    case (Cons kv' kvs')
    let ?rest = "join '', '' (map (\<lambda>kv. encode_str (fst kv) @ '': '' @ ref_dumps (snd kv)) kvs)
                 @ CHR ''}'' # r"
    have st: "starts_value ?rest"
      using Cons by (cases kvs') (simp_all add: starts_value_def encode_str_def DQ_def is_ws_def)
    have pv: "parse_value m (ref_dumps v @ CHR '','' # CHR '' '' # ?rest)
                = Some (v, CHR '','' # CHR '' '' # ?rest)"
      using Cons.prems(1) [of kv m] mv kv by (simp add: ok_rest_punct)
    have sv: "skip_ws (ref_dumps v @ CHR '','' # CHR '' '' # ?rest)
                = ref_dumps v @ CHR '','' # CHR '' '' # ?rest"
      using starts_value_dumps [of v "CHR '','' # CHR '' '' # ?rest"]
      by (simp add: skip_ws_starts_value)
    have rec: "parse_members m (acc @ [(k, v)]) ?rest = Some (JObj ((acc @ [(k, v)]) @ kvs), r)"
      using Cons.IH [of m "acc @ [(k, v)]"] Cons.prems(1) mkvs Cons dist by simp
    have jn: "join '', '' (map (\<lambda>kv. encode_str (fst kv) @ '': '' @ ref_dumps (snd kv)) ((k, v) # kvs))
                = encode_str k @ '': '' @ ref_dumps v @ '', ''
                  @ join '', '' (map (\<lambda>kv. encode_str (fst kv) @ '': '' @ ref_dumps (snd kv)) kvs)"
      using Cons by simp
    have key: "parse_chars [] (concat (map escape_char k) @ DQ # CHR '':'' # CHR '' '' # ref_dumps v
                 @ CHR '','' # CHR '' '' # ?rest)
               = Some (k, CHR '':'' # CHR '' '' # ref_dumps v @ CHR '','' # CHR '' '' # ?rest)"
      by (rule parse_member_key)
    have "parse_members (Suc m) acc
            (DQ # concat (map escape_char k) @ DQ # CHR '':'' # CHR '' '' # ref_dumps v
                 @ CHR '','' # CHR '' '' # ?rest) = Some (JObj ((acc @ [(k, v)]) @ kvs), r)"
      by (simp only: parse_members.simps list.case if_False if_True simp_thms key option.case
            prod.case skip_ws_punct sv pv ds rec skip_ws_space skip_ws_starts_value [OF st]
            char.inject)
    then show ?thesis
      unfolding n kv jn by (simp add: encode_str_def)
  qed
qed

lemma size_list_members:
  "size_list (size_prod (\<lambda>x. 0) size) kvs = size_list (\<lambda>kv. Suc (size (snd kv))) kvs"
  by (induction kvs) auto

lemma parse_value_dumps:
  "wf_json v \<Longrightarrow> size v < n \<Longrightarrow> ok_rest r \<Longrightarrow> parse_value n (ref_dumps v @ r) = Some (v, r)"
proof (induction v arbitrary: n r)
  case JNull
  then obtain m where "n = Suc m" by (cases n) auto
  then show ?case by (simp add: DQ_def)
next
  case (JBool b)
  then obtain m where "n = Suc m" by (cases n) auto
  then show ?case by (simp add: DQ_def)
next
  case (JInt i)
  then obtain m where "n = Suc m" by (cases n) auto
  then show ?case using JInt parse_value_JInt by simp
next
  case (JStr s)
  then obtain m where "n = Suc m" by (cases n) auto
  then show ?case using parse_value_JStr by simp
next
  case (JList xs)
  from JList.prems obtain m where n: "n = Suc m" by (cases n) auto
  show ?case
  proof (cases xs)
    case Nil
    then show ?thesis using n by (simp add: DQ_def skip_ws_punct)
  next
    case (Cons y ys)
    let ?body = "join '', '' (map ref_dumps xs) @ CHR '']'' # r"
    have sv: "starts_value ?body"
      using Cons starts_value_dumps [of y] by (cases ys) simp_all
    then obtain d ds where b: "?body = d # ds" and d: "d \<noteq> CHR '']''"
      by (cases ?body) (auto simp: starts_value_def)
    have pe: "parse_elems m [] ?body = Some (JList ([] @ xs), r)"
    proof (rule parse_elems_dumps)
      fix x n r assume "x \<in> set xs" "size x < n" "ok_rest r"
      then show "parse_value n (ref_dumps x @ r) = Some (x, r)"
        using JList.IH [of x n r] JList.prems(1) by simp
    next
      show "xs \<noteq> []" using Cons by simp
      show "size_list size xs < m" using JList.prems(2) n by simp
    qed
    have "parse_value (Suc m) (CHR ''['' # ?body) = parse_elems m [] ?body"
      using skip_ws_starts_value [OF sv] b d by (simp add: DQ_def)
    then show ?thesis using pe n by simp
  qed
next
  case (JObj kvs)
  from JObj.prems obtain m where n: "n = Suc m" by (cases n) auto
  show ?case
  proof (cases kvs)
    case Nil
    then show ?thesis using n by (simp add: DQ_def skip_ws_punct)
  next
    case (Cons kv' kvs')
    let ?body = "join '', '' (map (\<lambda>kv. encode_str (fst kv) @ '': '' @ ref_dumps (snd kv)) kvs)
                 @ CHR ''}'' # r"
    have sv: "starts_value ?body"
      using Cons by (cases kvs') (simp_all add: starts_value_def encode_str_def DQ_def is_ws_def)
    then obtain d ds where b: "?body = d # ds" and d: "d \<noteq> CHR ''}''"
      by (cases ?body) (auto simp: starts_value_def)
    have pe: "parse_members m [] ?body = Some (JObj ([] @ kvs), r)"
    proof (rule parse_members_dumps)
      fix kv n r assume a: "kv \<in> set kvs" "size (snd kv) < n" "ok_rest r"
      obtain k v where kv: "kv = (k, v)" by (cases kv)
      show "parse_value n (ref_dumps (snd kv) @ r) = Some (snd kv, r)"
        using JObj.IH [of kv v n r] a kv JObj.prems(1) by auto
    next
      show "kvs \<noteq> []" using Cons by simp
      show "size_list (\<lambda>kv. Suc (size (snd kv))) kvs < m"
        using JObj.prems(2) n by (simp add: size_list_members)
      show "distinct (map fst ([] @ kvs))" using JObj.prems(1) by simp
    qed
    have "parse_value (Suc m) (CHR ''{'' # ?body) = parse_members m [] ?body"
      using skip_ws_starts_value [OF sv] b d by (simp add: DQ_def)
    then show ?thesis using pe n by simp
  qed
qed


lemma size_list_le_join:
  assumes "\<And>x. x \<in> set xs \<Longrightarrow> f x \<le> length (g x)"
  shows "size_list f xs \<le> Suc (length (join '', '' (map g xs)))"
  using assms
proof (induction xs)
  case Nil
  then show ?case by simp
next
  case (Cons x xs)
  then show ?case by (cases xs) (fastforce)+
qed

lemma size_le_length_dumps: "size v \<le> length (ref_dumps v)"
proof (induction v)
  case (JList xs)
  have "size_list size xs \<le> Suc (length (join '', '' (map ref_dumps xs)))"
    by (rule size_list_le_join) (rule JList.IH)
  then show ?case by simp
next
  case (JObj kvs)
  have "size_list (\<lambda>kv. Suc (size (snd kv))) kvs
          \<le> Suc (length (join '', '' (map (\<lambda>kv. encode_str (fst kv) @ '': '' @ ref_dumps (snd kv)) kvs)))"
  proof (rule size_list_le_join)
    fix kv assume a: "kv \<in> set kvs"
    obtain k v where kv: "kv = (k, v)" by (cases kv)
    have "size v \<le> length (ref_dumps v)"
      using JObj.IH [of kv v] a kv by auto
    then show "Suc (size (snd kv)) \<le> length (encode_str (fst kv) @ '': '' @ ref_dumps (snd kv))"
      using kv by simp
  qed
  then show ?case by (simp add: size_list_members)
qed (simp_all add: Suc_le_eq)

lemma ref_loads_ref_dumps: "wf_json v \<Longrightarrow> ref_loads (ref_dumps v) = Some v"
proof -
  assume wf: "wf_json v"
  have sk: "skip_ws (ref_dumps v) = ref_dumps v"
    using starts_value_dumps [of v "[]"] by (simp add: skip_ws_starts_value)
  have "size v < Suc (length (ref_dumps v))"
    using size_le_length_dumps [of v] by simp
  then have "parse_value (Suc (length (ref_dumps v))) (ref_dumps v @ []) = Some (v, [])"
    using wf by (intro parse_value_dumps) (simp_all add: ok_rest_def)
  moreover have "skip_ws [] = []" by (simp add: skip_ws_def)
  ultimately show ?thesis
    by (simp add: ref_loads_def sk)
qed

section \<open>An entry written to the log file is read back\<close>


























section \<open>The Record of a successful response\<close>

lemma record_field_dumped:
  assumes "json_dumps w = ref_dumps" and "json_loads w = ref_loads"
    and "wf_json t" and "wf_json d" and "wf_json resp"
  shows "record_field w k
           (Inr \<lparr>statusCode = c,
                 body = json_dumps w (JObj [(''pelicula'', JObj [(''tenant_id'', t),
                                                                 (''uuid'', JStr u),
                                                                 (''pelicula_datos'', d)]),
                                            (''dynamodb_response'', resp)])\<rparr>)
         = map_of [(''tenant_id'', t), (''uuid'', JStr u), (''pelicula_datos'', d)] k"
proof -
  let ?obj = "JObj [(''pelicula'', JObj [(''tenant_id'', t), (''uuid'', JStr u),
                                         (''pelicula_datos'', d)]),
                    (''dynamodb_response'', resp)]"
  have "wf_json ?obj" using assms(3-5) by simp
  then have "ref_loads (ref_dumps ?obj) = Some ?obj" by (rule ref_loads_ref_dumps)
  then show ?thesis
    by (simp add: record_field_def assms(1,2) del: ref_dumps.simps)
qed

text \<open>
  Claim C2, as the code has it.  With both fields present, \<^verbatim>\<open>TABLE_NAME\<close> set and
  \<^verbatim>\<open>put_item\<close> returning, the handler returns status 200 and the body is the encoding of
  \<^verbatim>\<open>{"pelicula": Record, "dynamodb_response": response}\<close>.  Read back from the body, the
  Record holds the caller's \<^verbatim>\<open>tenant_id\<close> and \<^verbatim>\<open>pelicula_datos\<close> and, under the key
  \<^verbatim>\<open>uuid\<close>, a newly generated identifier that is not empty; it has no key \<^verbatim>\<open>id\<close>.  A
  second call with the same event returns status 200 with a Record whose \<^verbatim>\<open>uuid\<close> differs
  from that of the first.
\<close>

theorem success_200_record_uuid:
  assumes "normalize_body event w = JObj kvs"
    and "map_of kvs ''tenant_id'' = Some t" and "map_of kvs ''pelicula_datos'' = Some d"
    and "environ w ''TABLE_NAME'' = Some tbl" and "tbl \<noteq> []"
    and "put_item w tbl (JObj [(''tenant_id'', t), (''uuid'', JStr (uuid4_nth (uuid_src w) (drawn w))),
                               (''pelicula_datos'', d)]) = PutOk resp"
    and "put_item w tbl (JObj [(''tenant_id'', t), (''uuid'', JStr (uuid4_nth (uuid_src w) (Suc (drawn w)))),
                               (''pelicula_datos'', d)]) = PutOk resp'"
  shows "let first = lambda_handler event context w;
             again = lambda_handler event context (snd first)
         in fst first = Inr \<lparr>statusCode = 200,
                 body = json_dumps w (JObj [(''pelicula'',
                          JObj [(''tenant_id'', t),
                                (''uuid'', JStr (uuid4_nth (uuid_src w) (drawn w))),
                                (''pelicula_datos'', d)]),
                         (''dynamodb_response'', resp)])\<rparr>
          \<and> fst again = Inr \<lparr>statusCode = 200,
                 body = json_dumps w (JObj [(''pelicula'',
                          JObj [(''tenant_id'', t),
                                (''uuid'', JStr (uuid4_nth (uuid_src w) (Suc (drawn w)))),
                                (''pelicula_datos'', d)]),
                         (''dynamodb_response'', resp')])\<rparr>
          \<and> (json_dumps w = ref_dumps \<and> json_loads w = ref_loads
               \<and> wf_json t \<and> wf_json d \<and> wf_json resp \<and> wf_json resp' \<longrightarrow>
                 record_field w ''tenant_id'' (fst first) = Some t
               \<and> record_field w ''pelicula_datos'' (fst first) = Some d
               \<and> record_field w ''id'' (fst first) = None
               \<and> record_field w ''uuid'' (fst first) \<noteq> None
               \<and> record_field w ''uuid'' (fst first) \<noteq> Some (JStr [])
               \<and> record_field w ''uuid'' (fst again) \<noteq> None
               \<and> record_field w ''uuid'' (fst again) \<noteq> record_field w ''uuid'' (fst first))"
proof -
  let ?u = "uuid4_nth (uuid_src w) (drawn w)"
  let ?u' = "uuid4_nth (uuid_src w) (Suc (drawn w))"
  have rf: "required_fields (normalize_body event w) = Inr (t, d)"
    using assms(1-3) by (simp add: required_fields_present)
  note h1 = handler_success [OF rf assms(4,5,6), of "context"]
  let ?w2 = "snd (lambda_handler event context w)"
  have fr: "json_loads ?w2 = json_loads w" "json_dumps ?w2 = json_dumps w"
    "environ ?w2 = environ w" "put_item ?w2 = put_item w" "uuid_src ?w2 = uuid_src w"
    "drawn ?w2 = Suc (drawn w)"
    unfolding h1 snd_conv by (simp_all add: log_both_frame)
  have rf2: "required_fields (normalize_body event ?w2) = Inr (t, d)"
    using rf normalize_body_cong [OF fr(1)] by simp
  have f1: "fst (lambda_handler event context w) = Inr \<lparr>statusCode = 200,
                 body = json_dumps w (JObj [(''pelicula'', JObj [(''tenant_id'', t),
                            (''uuid'', JStr ?u), (''pelicula_datos'', d)]),
                                            (''dynamodb_response'', resp)])\<rparr>"
    unfolding h1 by simp
  have f2: "fst (lambda_handler event context ?w2) = Inr \<lparr>statusCode = 200,
                 body = json_dumps w (JObj [(''pelicula'', JObj [(''tenant_id'', t),
                            (''uuid'', JStr ?u'), (''pelicula_datos'', d)]),
                                            (''dynamodb_response'', resp')])\<rparr>"
    using handler_success [OF rf2, of tbl "resp'" "context"] assms(4,5,7)
    by (simp add: fr)
  have gen: "?u \<noteq> []" "?u' \<noteq> ?u"
    by (simp_all add: uuid4_nth_props)
  have dec: "record_field w ''tenant_id'' (fst (lambda_handler event context w)) = Some t
           \<and> record_field w ''pelicula_datos'' (fst (lambda_handler event context w)) = Some d
           \<and> record_field w ''id'' (fst (lambda_handler event context w)) = None
           \<and> record_field w ''uuid'' (fst (lambda_handler event context w)) \<noteq> None
           \<and> record_field w ''uuid'' (fst (lambda_handler event context w)) \<noteq> Some (JStr [])
           \<and> record_field w ''uuid'' (fst (lambda_handler event context ?w2)) \<noteq> None
           \<and> record_field w ''uuid'' (fst (lambda_handler event context ?w2))
               \<noteq> record_field w ''uuid'' (fst (lambda_handler event context w))"
    if lib: "json_dumps w = ref_dumps \<and> json_loads w = ref_loads
               \<and> wf_json t \<and> wf_json d \<and> wf_json resp \<and> wf_json resp'"
  proof -
    have r1: "record_field w k (fst (lambda_handler event context w))
                = map_of [(''tenant_id'', t), (''uuid'', JStr ?u), (''pelicula_datos'', d)] k" for k
      unfolding f1 using lib by (intro record_field_dumped) simp_all
    have r2: "record_field w k (fst (lambda_handler event context ?w2))
                = map_of [(''tenant_id'', t), (''uuid'', JStr ?u'), (''pelicula_datos'', d)] k" for k
      unfolding f2 using lib by (intro record_field_dumped) simp_all
    show ?thesis
      unfolding r1 r2 using gen by simp
  qed
  show ?thesis
    unfolding Let_def using f1 f2 dec by blast
qed

text \<open>
  The Record of the response to \<^verbatim>\<open>{"tenant_id": "t1", "pelicula_datos": {"title": "X"}}\<close>
  in the sample world: its keys are \<^verbatim>\<open>tenant_id\<close>, \<^verbatim>\<open>uuid\<close> and \<^verbatim>\<open>pelicula_datos\<close>, and
  looking up \<^verbatim>\<open>id\<close> finds nothing.
\<close>

theorem record_has_no_id_field:
  "fst (lambda_handler (JObj [(''body'', JObj [(''tenant_id'', JStr ''t1''),
                                               (''pelicula_datos'', JObj [(''title'', JStr ''X'')])])])
          JNull sample_world) =
     Inr \<lparr>statusCode = 200,
          body = ref_dumps (JObj [(''pelicula'',
                    JObj [(''tenant_id'', JStr ''t1''),
                          (''uuid'', JStr ''3f2b8c1e-5d4a-4e6f-9a7b-0c1d2e3f4a50''),
                          (''pelicula_datos'', JObj [(''title'', JStr ''X'')])]),
                   (''dynamodb_response'', JObj [])])\<rparr>
   \<and> map_of [(''tenant_id'', JStr ''t1''),
             (''uuid'', JStr ''3f2b8c1e-5d4a-4e6f-9a7b-0c1d2e3f4a50''),
             (''pelicula_datos'', JObj [(''title'', JStr ''X'')])] ''id'' = None"
proof -
  have nb: "normalize_body (JObj [(''body'', JObj [(''tenant_id'', JStr ''t1''),
                (''pelicula_datos'', JObj [(''title'', JStr ''X'')])])]) sample_world
            = JObj [(''tenant_id'', JStr ''t1''), (''pelicula_datos'', JObj [(''title'', JStr ''X'')])]"
    by (simp add: normalize_body_def)
  have rf: "required_fields (normalize_body (JObj [(''body'', JObj [(''tenant_id'', JStr ''t1''),
                (''pelicula_datos'', JObj [(''title'', JStr ''X'')])])]) sample_world)
            = Inr (JStr ''t1'', JObj [(''title'', JStr ''X'')])"
    unfolding nb by (simp add: required_fields_def)
  show ?thesis
    using handler_success [OF rf, of "''peliculas''" "JObj []" JNull]
    by (simp add: sample_world_simps sample_uuid str_nat_small digit_char_simps
          del: ref_dumps.simps)
qed

theorem success_200_record_uuid_witness:
  "let ev = JObj [(''body'', JObj [(''tenant_id'', JStr ''t1''),
                                   (''pelicula_datos'', JObj [(''title'', JStr ''X'')])])];
       first = lambda_handler ev JNull sample_world;
       again = lambda_handler ev JNull (snd first)
   in fst first = Inr \<lparr>statusCode = 200,
          body = ref_dumps (JObj [(''pelicula'',
                    JObj [(''tenant_id'', JStr ''t1''),
                          (''uuid'', JStr ''3f2b8c1e-5d4a-4e6f-9a7b-0c1d2e3f4a50''),
                          (''pelicula_datos'', JObj [(''title'', JStr ''X'')])]),
                   (''dynamodb_response'', JObj [])])\<rparr>
    \<and> fst again = Inr \<lparr>statusCode = 200,
          body = ref_dumps (JObj [(''pelicula'',
                    JObj [(''tenant_id'', JStr ''t1''),
                          (''uuid'', JStr ''3f2b8c1e-5d4a-4e6f-9a7b-0c1d2e3f4a51''),
                          (''pelicula_datos'', JObj [(''title'', JStr ''X'')])]),
                   (''dynamodb_response'', JObj [])])\<rparr>
    \<and> record_field sample_world ''tenant_id'' (fst first) = Some (JStr ''t1'')
    \<and> record_field sample_world ''pelicula_datos'' (fst first) = Some (JObj [(''title'', JStr ''X'')])
    \<and> record_field sample_world ''id'' (fst first) = None
    \<and> record_field sample_world ''uuid'' (fst first) \<noteq> None
    \<and> record_field sample_world ''uuid'' (fst first) \<noteq> Some (JStr [])
    \<and> record_field sample_world ''uuid'' (fst again) \<noteq> None
    \<and> record_field sample_world ''uuid'' (fst again) \<noteq> record_field sample_world ''uuid'' (fst first)"
proof -
  have nb: "normalize_body (JObj [(''body'', JObj [(''tenant_id'', JStr ''t1''),
                (''pelicula_datos'', JObj [(''title'', JStr ''X'')])])]) sample_world
            = JObj [(''tenant_id'', JStr ''t1''), (''pelicula_datos'', JObj [(''title'', JStr ''X'')])]"
    by (simp add: normalize_body_def)
  have k: "map_of [(''tenant_id'', JStr ''t1''), (''pelicula_datos'', JObj [(''title'', JStr ''X'')])]
             ''tenant_id'' = Some (JStr ''t1'')"
          "map_of [(''tenant_id'', JStr ''t1''), (''pelicula_datos'', JObj [(''title'', JStr ''X'')])]
             ''pelicula_datos'' = Some (JObj [(''title'', JStr ''X'')])"
    by simp_all
  have env: "environ sample_world ''TABLE_NAME'' = Some ''peliculas''" "''peliculas'' \<noteq> []"
    by (simp_all add: sample_world_simps)
  have p: "\<And>item. put_item sample_world ''peliculas'' item = PutOk (JObj [])"
    by (simp add: sample_world_simps)
  have lib: "json_dumps sample_world = ref_dumps \<and> json_loads sample_world = ref_loads
             \<and> wf_json (JStr ''t1'') \<and> wf_json (JObj [(''title'', JStr ''X'')])
             \<and> wf_json (JObj []) \<and> wf_json (JObj [])"
    by (simp add: sample_world_simps)
  have u: "uuid4_nth (uuid_src sample_world) (drawn sample_world) = ''3f2b8c1e-5d4a-4e6f-9a7b-0c1d2e3f4a50''"
    "uuid4_nth (uuid_src sample_world) (Suc (drawn sample_world)) = ''3f2b8c1e-5d4a-4e6f-9a7b-0c1d2e3f4a51''"
    by (simp_all add: sample_uuid sample_world_simps str_nat_small digit_char_simps)
  show ?thesis
    using success_200_record_uuid [OF nb k env p p, of JNull] lib
    unfolding Let_def u sample_world_simps(8) by blast
qed

end
